theory Spec2Isabelle
  imports Main "HOL-Library.AList"
begin

section \<open>The Riot API access layer of lol-discord-bot\<close>

text \<open>
  A shallow embedding of \<^verbatim>\<open>RiotApiService\<close>, its \<^verbatim>\<open>RateLimiter\<close> and the
  \<^verbatim>\<open>REGIONS\<close> table. Times are the integer milliseconds of \<^verbatim>\<open>Date.now()\<close>;
  the clock, the cache, the two rate limiters and a log of the observable effects
  (admission checks, sleeps, transport calls) are threaded through every operation.
  Strings are byte strings; thrown errors are values carrying their message.
\<close>

subsection \<open>JavaScript values and string primitives\<close>

text \<open>
  What \<^verbatim>\<open>response.json()\<close> can produce. Numbers are kept as integers: only their
  truthiness and their decimal rendering are used. An object lists each of its keys once.
\<close>

datatype json =
    JNull
  | JBool bool
  | JNum int
  | JStr string
  | JArr "json list"
  | JObj "(string \<times> json) list"

text \<open>The truthiness that \<^verbatim>\<open>if (x)\<close> tests: arrays and objects are always truthy.\<close>

fun truthy :: "json \<Rightarrow> bool" where
  "truthy JNull = False"
| "truthy (JBool b) = b"
| "truthy (JNum n) = (n \<noteq> 0)"
| "truthy (JStr s) = (s \<noteq> [])"
| "truthy (JArr xs) = True"
| "truthy (JObj kvs) = True"

text \<open>A JavaScript number that may be \<^verbatim>\<open>NaN\<close>.\<close>

datatype jsnum = Num int | NaN

fun multiply :: "jsnum \<Rightarrow> int \<Rightarrow> jsnum" where
  "multiply (Num n) k = Num (n * k)"
| "multiply NaN k = NaN"

text \<open>Decimal rendering of a number inside a template literal.\<close>

definition digit :: "nat \<Rightarrow> char" where
  "digit n = ''0123456789'' ! n"

fun digits :: "nat \<Rightarrow> string" where
  "digits n = (if n < 10 then [digit n] else digits (n div 10) @ [digit (n mod 10)])"

declare digits.simps [simp del]

definition String_int :: "int \<Rightarrow> string" where
  "String_int i = (if i < 0 then CHR ''-'' # digits (nat (- i)) else digits (nat i))"

text \<open>
  \<^verbatim>\<open>String(x)\<close> as a template literal applies it; \<^verbatim>\<open>None\<close> stands for
  \<^verbatim>\<open>undefined\<close>. Inside an array \<^verbatim>\<open>null\<close> renders as the empty string.
\<close>

fun join :: "string \<Rightarrow> string list \<Rightarrow> string" where
  "join sep [] = []"
| "join sep [x] = x"
| "join sep (x # y # ys) = x @ sep @ join sep (y # ys)"

fun String_json :: "json \<Rightarrow> string" where
  "String_json JNull = ''null''"
| "String_json (JBool b) = (if b then ''true'' else ''false'')"
| "String_json (JNum n) = String_int n"
| "String_json (JStr s) = s"
| "String_json (JArr xs) = join '','' (map (\<lambda>x. if x = JNull then [] else String_json x) xs)"
| "String_json (JObj kvs) = ''[object Object]''"

definition String_opt :: "json option \<Rightarrow> string" where
  "String_opt v = (case v of None \<Rightarrow> ''undefined'' | Some x \<Rightarrow> String_json x)"

text \<open>
  Property access \<^verbatim>\<open>x.name\<close> for a name that no prototype defines: an own property of
  an object, \<^verbatim>\<open>undefined\<close> on any other value but \<^verbatim>\<open>null\<close>, where it throws.
\<close>

datatype error = Error (message: string)

definition getProperty :: "json \<Rightarrow> string \<Rightarrow> error + json option" where
  "getProperty x name =
     (case x of
        JNull \<Rightarrow> Inl (Error (''Cannot read properties of null (reading '' @ [CHR 0x27] @ name @ [CHR 0x27] @ '')''))
      | JObj kvs \<Rightarrow> Inr (map_of kvs name)
      | _ \<Rightarrow> Inr None)"

text \<open>\<^verbatim>\<open>toLowerCase\<close>, \<^verbatim>\<open>trim\<close>, \<^verbatim>\<open>split\<close> and \<^verbatim>\<open>includes\<close> (here \<open>includes_str\<close>) on ASCII text.\<close>

definition lower_char :: "char \<Rightarrow> char" where
  "lower_char c =
     (case map_of (zip ''ABCDEFGHIJKLMNOPQRSTUVWXYZ'' ''abcdefghijklmnopqrstuvwxyz'') c of
        None \<Rightarrow> c
      | Some l \<Rightarrow> l)"

definition toLowerCase :: "string \<Rightarrow> string" where
  "toLowerCase s = map lower_char s"

definition isWhiteSpace :: "char \<Rightarrow> bool" where
  "isWhiteSpace c = (c \<in> set [CHR 0x20, CHR 0x09, CHR 0x0A, CHR 0x0B, CHR 0x0C, CHR 0x0D])"

definition trim :: "string \<Rightarrow> string" where
  "trim s = rev (dropWhile isWhiteSpace (rev (dropWhile isWhiteSpace s)))"

fun split :: "char \<Rightarrow> string \<Rightarrow> string list" where
  "split sep [] = [[]]"
| "split sep (c # cs) =
     (if c = sep then [] # split sep cs
      else (case split sep cs of [] \<Rightarrow> [[c]] | p # ps \<Rightarrow> (c # p) # ps))"

fun includes_str :: "string \<Rightarrow> string \<Rightarrow> bool" where
  "includes_str [] sub = (sub = [])"
| "includes_str (c # cs) sub = (take (length sub) (c # cs) = sub \<or> includes_str cs sub)"

text \<open>
  \<^verbatim>\<open>parseInt(s)\<close> with no radix: leading white space, a sign, an optional
  \<^verbatim>\<open>0x\<close> prefix, then the longest run of digits; \<^verbatim>\<open>NaN\<close> when that run is empty.
\<close>

definition digit_value :: "char \<Rightarrow> nat option" where
  "digit_value c =
     (let n = (of_char c :: nat) in
      if 48 \<le> n \<and> n \<le> 57 then Some (n - 48)
      else if 97 \<le> n \<and> n \<le> 102 then Some (n - 87)
      else if 65 \<le> n \<and> n \<le> 70 then Some (n - 55)
      else None)"

definition is_digit :: "nat \<Rightarrow> char \<Rightarrow> bool" where
  "is_digit radix c = (case digit_value c of None \<Rightarrow> False | Some d \<Rightarrow> d < radix)"

definition digits_value :: "nat \<Rightarrow> string \<Rightarrow> nat" where
  "digits_value radix z = foldl (\<lambda>a c. a * radix + the (digit_value c)) 0 z"

definition parseInt :: "string \<Rightarrow> jsnum" where
  "parseInt s =
     (let s1 = dropWhile isWhiteSpace s;
          negative = (take 1 s1 = ''-'');
          s2 = (if take 1 s1 = ''-'' \<or> take 1 s1 = ''+'' then drop 1 s1 else s1);
          hex = (take 2 s2 = ''0x'' \<or> take 2 s2 = ''0X'');
          radix = (if hex then 16 else 10);
          s3 = (if hex then drop 2 s2 else s2);
          z = takeWhile (is_digit radix) s3
      in if z = [] then NaN
         else Num (if negative then - int (digits_value radix z) else int (digits_value radix z)))"

subsection \<open>RateLimiter\<close>

record RateLimiter =
  requests :: "int list"
  limit :: int
  windowMs :: int

definition newRateLimiter :: "int \<Rightarrow> int \<Rightarrow> RateLimiter" where
  "newRateLimiter lim win = \<lparr>requests = [], limit = lim, windowMs = win\<rparr>"

text \<open>
  \<^verbatim>\<open>tryRequest\<close> at time \<open>now\<close>: the filter keeps a timestamp when
  \<^verbatim>\<open>now - time < windowMs\<close>; the filtered list is stored whether or not the request
  is admitted.
\<close>

definition tryRequest :: "RateLimiter \<Rightarrow> int \<Rightarrow> bool \<times> RateLimiter" where
  "tryRequest rl now =
     (let kept = filter (\<lambda>time. now - time < windowMs rl) (requests rl) in
      if int (length kept) < limit rl
      then (True, rl\<lparr>requests := kept @ [now]\<rparr>)
      else (False, rl\<lparr>requests := kept\<rparr>))"

text \<open>\<^verbatim>\<open>getRetryAfter\<close> at time \<open>now\<close>; it reads the list and never writes it.\<close>

definition getRetryAfter :: "RateLimiter \<Rightarrow> int \<Rightarrow> int" where
  "getRetryAfter rl now =
     (case requests rl of
        [] \<Rightarrow> 0
      | r # rs \<Rightarrow> max 0 (windowMs rl - (now - fold min rs r)))"

subsection \<open>Region table\<close>

record RegionConfig =
  platform :: string
  region :: string
  continent :: string

definition mkRegion :: "string \<Rightarrow> string \<Rightarrow> string \<times> RegionConfig" where
  "mkRegion code cont = (code, \<lparr>platform = code, region = code, continent = cont\<rparr>)"

definition REGIONS :: "(string \<times> RegionConfig) list" where
  "REGIONS =
     [mkRegion ''na1'' ''americas'', mkRegion ''euw1'' ''europe'', mkRegion ''eune1'' ''europe'',
      mkRegion ''kr'' ''asia'', mkRegion ''jp1'' ''asia'', mkRegion ''br1'' ''americas'',
      mkRegion ''la1'' ''americas'', mkRegion ''la2'' ''americas'', mkRegion ''oc1'' ''sea'',
      mkRegion ''tr1'' ''europe'', mkRegion ''ru'' ''europe'', mkRegion ''ph2'' ''sea'',
      mkRegion ''sg2'' ''sea'', mkRegion ''th2'' ''sea'', mkRegion ''tw2'' ''sea'',
      mkRegion ''vn2'' ''sea'']"

text \<open>
  \<^verbatim>\<open>REGIONS\<close> is an object literal, so \<^verbatim>\<open>REGIONS[k]\<close> is a property lookup: an own
  property when \<open>k\<close> is a key of the table, otherwise whatever \<^verbatim>\<open>Object.prototype\<close>
  has under that name (a function, or the prototype itself for \<^verbatim>\<open>__proto__\<close>: all
  truthy), otherwise \<^verbatim>\<open>undefined\<close>.
\<close>

definition Object_prototype :: "string list" where
  "Object_prototype =
     [''constructor'', ''__defineGetter__'', ''__defineSetter__'', ''hasOwnProperty'',
      ''__lookupGetter__'', ''__lookupSetter__'', ''isPrototypeOf'', ''propertyIsEnumerable'',
      ''toString'', ''valueOf'', ''__proto__'', ''toLocaleString'']"

datatype property = Own RegionConfig | Inherited string

definition REGIONS_get :: "string \<Rightarrow> property option" where
  "REGIONS_get k =
     (case map_of REGIONS k of
        Some rc \<Rightarrow> Some (Own rc)
      | None \<Rightarrow> if k \<in> set Object_prototype then Some (Inherited k) else None)"

text \<open>\<^verbatim>\<open>regionConfig.platform\<close> and \<^verbatim>\<open>regionConfig.continent\<close>; \<open>None\<close> is \<^verbatim>\<open>undefined\<close>.\<close>

fun platform_of :: "property \<Rightarrow> string option" where
  "platform_of (Own rc) = Some (platform rc)"
| "platform_of (Inherited k) = None"

fun continent_of :: "property \<Rightarrow> string option" where
  "continent_of (Own rc) = Some (continent rc)"
| "continent_of (Inherited k) = None"

definition String_str :: "string option \<Rightarrow> string" where
  "String_str v = (case v of None \<Rightarrow> ''undefined'' | Some x \<Rightarrow> x)"

definition getRegionConfig :: "string \<Rightarrow> error + property" where
  "getRegionConfig reg =
     (case REGIONS_get (toLowerCase reg) of
        None \<Rightarrow> Inl (Error (''Invalid region: '' @ reg @ ''. Supported regions: '' @ join '', '' (map fst REGIONS)))
      | Some regionConfig \<Rightarrow> Inr regionConfig)"

text \<open>\<^verbatim>\<open>RiotApiUtils.isValidRegion\<close> asks for an own property.\<close>

definition isValidRegion :: "string \<Rightarrow> bool" where
  "isValidRegion reg = (toLowerCase reg \<in> set (map fst REGIONS))"

subsection \<open>Configuration, transport and service state\<close>

text \<open>
  \<^verbatim>\<open>config.json\<close> is read once at start; its \<^verbatim>\<open>riotApi\<close> part is a parameter
  here, with the fields of \<^verbatim>\<open>RiotApiConfig\<close> that the service reads.
\<close>

record Config =
  key :: string
  baseUrls :: "(string \<times> string) list"
  perSecond :: int
  per2Minutes :: int
  enabled :: bool
  summonerTtl :: int
  rankedTtl :: int

record Response =
  status :: int
  statusText :: string
  retryAfterHeader :: "string option"
  body :: "string + json"

text \<open>
  One \<^verbatim>\<open>getWithHeaders\<close> call, as the environment answers it for a URL and token at a
  given time: after \<open>latency\<close> milliseconds it throws (\<open>Inl\<close> the message) or returns a
  response, whose \<open>body\<close> is \<open>Inl\<close> the parser's message when it is not JSON.
\<close>

record Reply =
  latency :: nat
  outcome :: "string + Response"

type_synonym HttpService = "string \<Rightarrow> string \<Rightarrow> int \<Rightarrow> Reply"

definition ok :: "Response \<Rightarrow> bool" where
  "ok response = (200 \<le> status response \<and> status response \<le> 299)"

record CachedData =
  data :: json
  timestamp :: int
  ttl :: int

datatype event =
    TryRequest string bool
  | Sleep jsnum
  | GetWithHeaders string string

record State =
  clock :: int
  cache :: "(string \<times> CachedData) list"
  globalLimiter :: RateLimiter
  appLimiter :: RateLimiter
  trace :: "event list"

text \<open>
  The constructor with \<^verbatim>\<open>initializeRateLimiters\<close>, at time \<open>now\<close>. Both entries of
  \<^verbatim>\<open>rateLimiters\<close> are set here and the map is private, so the two limiters are
  fields of the state.
\<close>

definition newRiotApiService :: "Config \<Rightarrow> int \<Rightarrow> State" where
  "newRiotApiService cfg now =
     \<lparr>clock = now, cache = [],
      globalLimiter = newRateLimiter (perSecond cfg) 1000,
      appLimiter = newRateLimiter (per2Minutes cfg) 120000,
      trace = []\<rparr>"

text \<open>
  \<^verbatim>\<open>sleep(ms)\<close> resumes when the timer fires; the model resumes exactly \<open>ms\<close> later
  (immediately for a delay that is not positive or not a number).
\<close>

definition sleep :: "jsnum \<Rightarrow> State \<Rightarrow> State" where
  "sleep ms s =
     s\<lparr>clock := clock s + (case ms of Num n \<Rightarrow> max 0 n | NaN \<Rightarrow> 0),
       trace := trace s @ [Sleep ms]\<rparr>"

subsection \<open>Response cache\<close>

definition getFromCache :: "string \<Rightarrow> State \<Rightarrow> json \<times> State" where
  "getFromCache k s =
     (case map_of (cache s) k of
        None \<Rightarrow> (JNull, s)
      | Some cached \<Rightarrow>
          if clock s > timestamp cached + ttl cached
          then (JNull, s\<lparr>cache := AList.delete k (cache s)\<rparr>)
          else (data cached, s))"

definition setCache :: "string \<Rightarrow> json \<Rightarrow> int \<Rightarrow> State \<Rightarrow> State" where
  "setCache k d t s =
     s\<lparr>cache := AList.update k \<lparr>data = d, timestamp = clock s, ttl = t\<rparr> (cache s)\<rparr>"

record CacheStats =
  stats_size :: nat
  stats_keys :: "string list"

definition getCacheStats :: "State \<Rightarrow> CacheStats \<times> State" where
  "getCacheStats s = (\<lparr>stats_size = length (cache s), stats_keys = map fst (cache s)\<rparr>, s)"

subsection \<open>Rate limiting and error classification\<close>

definition applyRateLimit :: "State \<Rightarrow> State" where
  "applyRateLimit s =
     (let (admitted, g) = tryRequest (globalLimiter s) (clock s);
          s1 = s\<lparr>globalLimiter := g, trace := trace s @ [TryRequest ''global'' admitted]\<rparr>;
          s2 = (if \<not> admitted then sleep (Num (getRetryAfter g (clock s1))) s1 else s1);
          (admitted', a) = tryRequest (appLimiter s2) (clock s2);
          s3 = s2\<lparr>appLimiter := a, trace := trace s2 @ [TryRequest ''app'' admitted']\<rparr>
      in if \<not> admitted' then sleep (Num (getRetryAfter a (clock s3))) s3 else s3)"

text \<open>
  The message \<^verbatim>\<open>handleApiError\<close> starts from and replaces by the body's
  \<^verbatim>\<open>status.message\<close> when the body parses and that value is truthy; a body that does
  not parse, or reading \<^verbatim>\<open>status\<close> of \<^verbatim>\<open>null\<close>, lands in the empty \<^verbatim>\<open>catch\<close>.
\<close>

definition errorMessage :: "Response \<Rightarrow> string" where
  "errorMessage response =
     (let dflt = ''HTTP '' @ String_int (status response) @ '': '' @ statusText response in
      case body response of
        Inl parse_failure \<Rightarrow> dflt
      | Inr errorBody \<Rightarrow>
          (case getProperty errorBody ''status'' of
             Inl type_error \<Rightarrow> dflt
           | Inr None \<Rightarrow> dflt
           | Inr (Some JNull) \<Rightarrow> dflt
           | Inr (Some st) \<Rightarrow>
               (case getProperty st ''message'' of
                  Inr (Some m) \<Rightarrow> if truthy m then String_json m else dflt
                | _ \<Rightarrow> dflt)))"

definition waitTime :: "Response \<Rightarrow> jsnum" where
  "waitTime response =
     (case retryAfterHeader response of
        None \<Rightarrow> Num 1000
      | Some retryAfter \<Rightarrow> if retryAfter \<noteq> [] then multiply (parseInt retryAfter) 1000 else Num 1000)"

definition handleApiError :: "Response \<Rightarrow> State \<Rightarrow> error \<times> State" where
  "handleApiError response s =
     (if status response = 400 then (Error (''Bad Request: '' @ errorMessage response), s)
      else if status response = 401 then (Error ''Unauthorized: Invalid API key'', s)
      else if status response = 403 then
        (Error ''Forbidden: API key may be expired or lacking permissions'', s)
      else if status response = 404 then (Error ''Not Found: Summoner or data not found'', s)
      else if status response = 415 then (Error ''Unsupported Media Type'', s)
      else if status response = 429 then
        (Error ''Rate limited by Riot API'', sleep (waitTime response) s)
      else if status response = 500 then
        (Error ''Internal Server Error: Riot API is experiencing issues'', s)
      else if status response = 502 then
        (Error ''Bad Gateway: Riot API is temporarily unavailable'', s)
      else if status response = 503 then
        (Error ''Service Unavailable: Riot API is under maintenance'', s)
      else (Error (''API Error '' @ String_int (status response) @ '': '' @ errorMessage response), s))"

subsection \<open>The gateway call\<close>

text \<open>
  \<^verbatim>\<open>new URL(url)\<close> throws on a string with no scheme; host and path validation are not
  modelled.
\<close>

definition isAlpha :: "char \<Rightarrow> bool" where
  "isAlpha c = (lower_char c \<in> set ''abcdefghijklmnopqrstuvwxyz'')"

definition isSchemeChar :: "char \<Rightarrow> bool" where
  "isSchemeChar c = (isAlpha c \<or> c \<in> set ''0123456789+-.'')"

definition validUrl :: "string \<Rightarrow> bool" where
  "validUrl url =
     (case url of
        [] \<Rightarrow> False
      | c # cs \<Rightarrow> isAlpha c \<and> take 1 (dropWhile isSchemeChar cs) = '':'')"

text \<open>
  The truthiness of the optional arguments \<^verbatim>\<open>cacheKey\<close> and \<^verbatim>\<open>ttl\<close>: absent, the
  empty string and zero are falsy.
\<close>

definition truthy_str :: "string option \<Rightarrow> bool" where
  "truthy_str v = (case v of None \<Rightarrow> False | Some x \<Rightarrow> x \<noteq> [])"

definition truthy_num :: "int option \<Rightarrow> bool" where
  "truthy_num v = (case v of None \<Rightarrow> False | Some n \<Rightarrow> n \<noteq> 0)"

text \<open>
  The part of \<^verbatim>\<open>makeApiCall\<close> after the cache check: rate limiting, the transport
  call, classification of a failure, and the cache write.
\<close>

definition fetchRemote ::
  "HttpService \<Rightarrow> Config \<Rightarrow> string \<Rightarrow> string option \<Rightarrow> int option \<Rightarrow> State \<Rightarrow> (error + json) \<times> State" where
  "fetchRemote http cfg url cacheKey ttl_arg s =
     (let s1 = applyRateLimit s in
      if \<not> validUrl url then (Inl (Error ''Invalid URL''), s1)
      else
        let reply = http url (key cfg) (clock s1);
            s2 = s1\<lparr>clock := clock s1 + int (latency reply),
                    trace := trace s1 @ [GetWithHeaders url (key cfg)]\<rparr>
        in case outcome reply of
             Inl thrown \<Rightarrow> (Inl (Error thrown), s2)
           | Inr response \<Rightarrow>
               if \<not> ok response then (case handleApiError response s2 of (e, s3) \<Rightarrow> (Inl e, s3))
               else
                 (case body response of
                    Inl parse_failure \<Rightarrow> (Inl (Error parse_failure), s2)
                  | Inr d \<Rightarrow>
                      (Inr d,
                       case (cacheKey, ttl_arg) of
                         (Some k, Some t) \<Rightarrow>
                           if k \<noteq> [] \<and> t \<noteq> 0 \<and> enabled cfg then setCache k d t s2 else s2
                       | _ \<Rightarrow> s2)))"

definition makeApiCall ::
  "HttpService \<Rightarrow> Config \<Rightarrow> string \<Rightarrow> string option \<Rightarrow> int option \<Rightarrow> State \<Rightarrow> (error + json) \<times> State" where
  "makeApiCall http cfg url cacheKey ttl_arg s =
     (case cacheKey of
        None \<Rightarrow> fetchRemote http cfg url cacheKey ttl_arg s
      | Some k \<Rightarrow>
          if k \<noteq> [] \<and> enabled cfg
          then (case getFromCache k s of
                  (cached, s0) \<Rightarrow>
                    if truthy cached then (Inr cached, s0)
                    else fetchRemote http cfg url cacheKey ttl_arg s0)
          else fetchRemote http cfg url cacheKey ttl_arg s)"

subsection \<open>Public lookups\<close>

definition hexDigit :: "nat \<Rightarrow> char" where
  "hexDigit n = ''0123456789ABCDEF'' ! n"

definition isUnreserved :: "char \<Rightarrow> bool" where
  "isUnreserved c = (isAlpha c \<or> c \<in> set ''0123456789-_.!~*()'' \<or> c = CHR 0x27)"

definition encodeURIComponent :: "string \<Rightarrow> string" where
  "encodeURIComponent s =
     concat (map (\<lambda>c. if isUnreserved c then [c]
                       else [CHR ''%'', hexDigit ((of_char c :: nat) div 16), hexDigit ((of_char c :: nat) mod 16)]) s)"

definition buildUrl :: "Config \<Rightarrow> string \<Rightarrow> string \<Rightarrow> bool \<Rightarrow> error + string" where
  "buildUrl cfg reg endpoint isRegionalEndpoint =
     (case getRegionConfig reg of
        Inl e \<Rightarrow> Inl e
      | Inr regionConfig \<Rightarrow>
          if isRegionalEndpoint
          then Inr (''https://'' @ String_str (platform_of regionConfig) @ ''.api.riotgames.com'' @ endpoint)
          else Inr (String_str (map_of (baseUrls cfg) (String_str (continent_of regionConfig))) @ endpoint))"

definition getSummonerByPuuid ::
  "HttpService \<Rightarrow> Config \<Rightarrow> string \<Rightarrow> string \<Rightarrow> State \<Rightarrow> (error + json) \<times> State" where
  "getSummonerByPuuid http cfg puuid reg s =
     (case buildUrl cfg reg (''/lol/summoner/v4/summoners/by-puuid/'' @ puuid) True of
        Inl e \<Rightarrow> (Inl e, s)
      | Inr url \<Rightarrow>
          makeApiCall http cfg url (Some (''summoner:puuid:'' @ puuid)) (Some (summonerTtl cfg * 1000)) s)"

definition getAccountByRiotId ::
  "HttpService \<Rightarrow> Config \<Rightarrow> string \<Rightarrow> string \<Rightarrow> string \<Rightarrow> State \<Rightarrow> (error + json) \<times> State" where
  "getAccountByRiotId http cfg gameName tagLine reg s =
     (case buildUrl cfg reg
             (''/riot/account/v1/accounts/by-riot-id/'' @ encodeURIComponent gameName @ ''/'' @
              encodeURIComponent tagLine) False of
        Inl e \<Rightarrow> (Inl e, s)
      | Inr url \<Rightarrow>
          makeApiCall http cfg url (Some (''account:'' @ reg @ '':'' @ gameName @ '':'' @ tagLine))
            (Some (summonerTtl cfg * 1000)) s)"

definition getLeagueEntriesBySummonerId ::
  "HttpService \<Rightarrow> Config \<Rightarrow> string \<Rightarrow> string \<Rightarrow> State \<Rightarrow> (error + json) \<times> State" where
  "getLeagueEntriesBySummonerId http cfg summonerId reg s =
     (case buildUrl cfg reg (''/lol/league/v4/entries/by-summoner/'' @ summonerId) True of
        Inl e \<Rightarrow> (Inl e, s)
      | Inr url \<Rightarrow>
          makeApiCall http cfg url (Some (''league:'' @ reg @ '':'' @ summonerId))
            (Some (rankedTtl cfg * 1000)) s)"

text \<open>
  The two-step chain. \<^verbatim>\<open>account.puuid\<close> is read from whatever JSON came back and
  reaches the second call through a template literal.
\<close>

definition getSummonerByRiotId ::
  "HttpService \<Rightarrow> Config \<Rightarrow> string \<Rightarrow> string \<Rightarrow> string \<Rightarrow> State \<Rightarrow> (error + json) \<times> State" where
  "getSummonerByRiotId http cfg gameName tagLine reg s =
     (case getAccountByRiotId http cfg gameName tagLine reg s of
        (Inl e, s1) \<Rightarrow> (Inl e, s1)
      | (Inr account, s1) \<Rightarrow>
          (case getProperty account ''puuid'' of
             Inl e \<Rightarrow> (Inl e, s1)
           | Inr puuid \<Rightarrow> getSummonerByPuuid http cfg (String_opt puuid) reg s1))"

definition tagLineMap :: "(string \<times> string list) list" where
  "tagLineMap =
     [(''americas'', [''NA1'', ''BR1'', ''LAN'', ''LAS'', ''0000'']),
      (''europe'', [''EUW'', ''EUNE'', ''TR1'', ''RU'', ''0000'']),
      (''asia'', [''KR1'', ''JP1'', ''0000'']),
      (''sea'', [''OCE'', ''PH2'', ''SG2'', ''TH2'', ''TW2'', ''VN2'', ''0000''])]"

definition getDefaultTagLinesForRegion :: "string \<Rightarrow> error + string list" where
  "getDefaultTagLinesForRegion reg =
     (case getRegionConfig reg of
        Inl e \<Rightarrow> Inl e
      | Inr regionConfig \<Rightarrow>
          (case map_of tagLineMap (String_str (continent_of regionConfig)) of
             None \<Rightarrow> Inr [''0000'']
           | Some tagLines \<Rightarrow> Inr tagLines))"

definition notFoundMessage :: "string \<Rightarrow> string" where
  "notFoundMessage summonerName =
     ''Summoner '' @ [CHR 0x22] @ summonerName @ [CHR 0x22] @
     '' not found. Please use full Riot ID format: gameName#tagLine (e.g., '' @
     [CHR 0x22] @ ''Faker#KR1'' @ [CHR 0x22] @ '')''"

text \<open>The \<^verbatim>\<open>for\<close> loop over the default tag lines, with its \<^verbatim>\<open>try\<close>/\<^verbatim>\<open>catch\<close>.\<close>

fun tryTagLines ::
  "HttpService \<Rightarrow> Config \<Rightarrow> string \<Rightarrow> string \<Rightarrow> string list \<Rightarrow> State \<Rightarrow> (error + json) \<times> State" where
  "tryTagLines http cfg summonerName reg [] s = (Inl (Error (notFoundMessage summonerName)), s)"
| "tryTagLines http cfg summonerName reg (tagLine # rest) s =
     (case getSummonerByRiotId http cfg summonerName tagLine reg s of
        (Inr summoner, s1) \<Rightarrow> (Inr summoner, s1)
      | (Inl e, s1) \<Rightarrow>
          if \<not> includes_str (message e) ''Not Found'' then (Inl e, s1)
          else tryTagLines http cfg summonerName reg rest s1)"

definition getSummonerByName ::
  "HttpService \<Rightarrow> Config \<Rightarrow> string \<Rightarrow> string \<Rightarrow> State \<Rightarrow> (error + json) \<times> State" where
  "getSummonerByName http cfg summonerName reg s =
     (if includes_str summonerName ''#''
      then (case split CHR ''#'' summonerName of
              p0 # p1 # others \<Rightarrow> getSummonerByRiotId http cfg (trim p0) (trim p1) reg s
            | _ \<Rightarrow> (Inl (Error ''Cannot read properties of undefined (reading trim)''), s))
      else (case getDefaultTagLinesForRegion reg of
              Inl e \<Rightarrow> (Inl e, s)
            | Inr defaultTagLines \<Rightarrow> tryTagLines http cfg summonerName reg defaultTagLines s))"


subsection \<open>Running a rate limiter\<close>

text \<open>The answers of successive \<^verbatim>\<open>tryRequest\<close> calls made at the given times.\<close>

fun admissions :: "RateLimiter \<Rightarrow> int list \<Rightarrow> bool list" where
  "admissions rl [] = []"
| "admissions rl (now # ts) = (case tryRequest rl now of (admitted, rl') \<Rightarrow> admitted # admissions rl' ts)"

text \<open>
  Any interleaving of the two methods: a list of calls, each with the time it is made at.
  \<^verbatim>\<open>getRetryAfter\<close> leaves the limiter as it is.
\<close>

datatype call = CallTryRequest | CallGetRetryAfter

fun step :: "RateLimiter \<Rightarrow> call \<times> int \<Rightarrow> RateLimiter" where
  "step rl (CallTryRequest, now) = snd (tryRequest rl now)"
| "step rl (CallGetRetryAfter, now) = rl"

definition run :: "RateLimiter \<Rightarrow> (call \<times> int) list \<Rightarrow> RateLimiter" where
  "run rl calls = foldl step rl calls"

text \<open>
  The admission rule in the words of the specification: drop the timestamps older than
  \<open>now - windowDuration\<close>, admit and record when fewer than \<open>quota\<close> remain.
\<close>

definition spec_tryAdmit :: "RateLimiter \<Rightarrow> int \<Rightarrow> bool \<times> RateLimiter" where
  "spec_tryAdmit rl now =
     (let remaining = filter (\<lambda>time. \<not> time < now - windowMs rl) (requests rl) in
      if int (length remaining) < limit rl
      then (True, rl\<lparr>requests := remaining @ [now]\<rparr>)
      else (False, rl\<lparr>requests := remaining\<rparr>))"

text \<open>
  The window invariant in the words of the specification, read at time \<open>now\<close>: no
  recorded timestamp is older than \<open>windowDuration\<close>.
\<close>

definition spec_no_stale :: "RateLimiter \<Rightarrow> int \<Rightarrow> bool" where
  "spec_no_stale rl now = list_all (\<lambda>time. \<not> windowMs rl < now - time) (requests rl)"

subsection \<open>Observations and sample inputs\<close>

text \<open>Whether the entry under a key has outlived its ttl at the state's clock.\<close>

definition expired :: "string \<Rightarrow> State \<Rightarrow> bool" where
  "expired k s =
     (case map_of (cache s) k of
        None \<Rightarrow> False
      | Some cached \<Rightarrow> clock s > timestamp cached + ttl cached)"

text \<open>The number of transport calls in a log.\<close>

fun isGetWithHeaders :: "event \<Rightarrow> bool" where
  "isGetWithHeaders (GetWithHeaders url token) = True"
| "isGetWithHeaders (TryRequest name admitted) = False"
| "isGetWithHeaders (Sleep ms) = False"

definition transportCalls :: "event list \<Rightarrow> nat" where
  "transportCalls tr = length (filter isGetWithHeaders tr)"

text \<open>A configuration with the personal-key limits, and a transport that always gives the same answer.\<close>

definition sampleConfig :: Config where
  "sampleConfig =
     \<lparr>key = ''RGAPI-test'',
      baseUrls = [(''americas'', ''https://americas.api.riotgames.com''),
                  (''asia'', ''https://asia.api.riotgames.com''),
                  (''europe'', ''https://europe.api.riotgames.com''),
                  (''sea'', ''https://sea.api.riotgames.com'')],
      perSecond = 20, per2Minutes = 100, enabled = True, summonerTtl = 300, rankedTtl = 60\<rparr>"

definition respond :: "int \<Rightarrow> string \<Rightarrow> json \<Rightarrow> HttpService" where
  "respond st txt b =
     (\<lambda>url token now.
        \<lparr>latency = 0,
         outcome = Inr \<lparr>status = st, statusText = txt, retryAfterHeader = None, body = Inr b\<rparr>\<rparr>)"



text \<open>
  The failure taxonomy in the words of the specification, and its status mapping. The
  code throws plain \<^verbatim>\<open>Error\<close> objects; the variant is what the message stands for.
\<close>

datatype RemoteFailure =
    BadRequest
  | Unauthorized
  | Forbidden
  | NotFound
  | UnsupportedPayload
  | RateLimited
  | ServerError
  | ServiceUnavailable
  | Unknown

definition spec_classify :: "int \<Rightarrow> RemoteFailure" where
  "spec_classify st =
     (if st = 400 then BadRequest
      else if st = 401 then Unauthorized
      else if st = 403 then Forbidden
      else if st = 404 then NotFound
      else if st = 415 then UnsupportedPayload
      else if st = 429 then RateLimited
      else if st = 500 then ServerError
      else if st = 502 \<or> st = 503 then ServiceUnavailable
      else Unknown)"

section \<open>Properties\<close>

subsection \<open>RateLimiter\<close>

lemma tryRequest_requests:
  "requests (snd (tryRequest rl now)) =
     filter (\<lambda>time. now - windowMs rl < time) (requests rl) @ (if fst (tryRequest rl now) then [now] else [])"
proof -
  have "(\<lambda>time. now - time < windowMs rl) = (\<lambda>time. now - windowMs rl < time)"
    by (rule ext) arith
  then show ?thesis
    by (simp add: tryRequest_def Let_def)
qed

lemma tryRequest_admitted:
  "fst (tryRequest rl now) \<longleftrightarrow>
     int (length (filter (\<lambda>time. now - windowMs rl < time) (requests rl))) < limit rl"
proof -
  have "(\<lambda>time. now - time < windowMs rl) = (\<lambda>time. now - windowMs rl < time)"
    by (rule ext) arith
  then show ?thesis
    by (simp add: tryRequest_def Let_def)
qed

lemma tryRequest_fields:
  "limit (snd (tryRequest rl now)) = limit rl \<and> windowMs (snd (tryRequest rl now)) = windowMs rl"
  by (simp add: tryRequest_def Let_def)

lemma admissions_three:
  assumes "t1 \<le> t2" and "t2 \<le> t3" and "t3 - t1 < 1000"
  shows "admissions (newRateLimiter 2 1000) [t1, t2, t3] = [True, True, False]"
  using assms by (simp add: newRateLimiter_def tryRequest_def Let_def)

lemma admissions_four:
  assumes "t1 \<le> t2" and "t2 \<le> t3" and "t3 - t1 < 1000" and "1000 \<le> t4 - t1"
  shows "admissions (newRateLimiter 2 1000) [t1, t2, t3, t4] = [True, True, False, True]"
  using assms by (simp add: newRateLimiter_def tryRequest_def Let_def)

text \<open>
  C2 (as stated, refuted): the specification keeps a timestamp that is exactly
  \<open>windowDuration\<close> old, \<^verbatim>\<open>tryRequest\<close> drops it. With quota 2 and a window of 1000 ms,
  admissions at 0, 500 and 1000 ms are all granted by the code, while the rule as worded
  denies the third.
\<close>

theorem C2_boundary_counterexample:
  "admissions (newRateLimiter 2 1000) [0, 500, 1000] = [True, True, True]
   \<and> fst (tryRequest \<lparr>requests = [0, 500], limit = 2, windowMs = 1000\<rparr> 1000) = True
   \<and> fst (spec_tryAdmit \<lparr>requests = [0, 500], limit = 2, windowMs = 1000\<rparr> 1000) = False"
  by (simp add: newRateLimiter_def tryRequest_def spec_tryAdmit_def Let_def)

text \<open>
  C2 (amended): for every limiter state and call time, \<^verbatim>\<open>tryRequest\<close> keeps exactly the
  timestamps younger than \<open>windowMs\<close> (those with \<open>now - windowMs < time\<close>, so one that
  is exactly \<open>windowMs\<close> old is dropped too), returns true and appends \<open>now\<close> exactly when
  the kept count is below the limit, and otherwise returns false and appends nothing;
  limit and window are never changed. With limit 2 and window 1000, three calls spanning
  less than 1000 ms answer true, true, false, and a fourth call 1000 ms or more after the
  first answers true.
\<close>

theorem C2_tryRequest:
  "requests (snd (tryRequest rl now)) =
     filter (\<lambda>time. now - windowMs rl < time) (requests rl) @ (if fst (tryRequest rl now) then [now] else [])
   \<and> (fst (tryRequest rl now) \<longleftrightarrow>
        int (length (filter (\<lambda>time. now - windowMs rl < time) (requests rl))) < limit rl)
   \<and> limit (snd (tryRequest rl now)) = limit rl
   \<and> windowMs (snd (tryRequest rl now)) = windowMs rl
   \<and> (t1 \<le> t2 \<and> t2 \<le> t3 \<and> t3 - t1 < 1000 \<longrightarrow>
        admissions (newRateLimiter 2 1000) [t1, t2, t3] = [True, True, False])
   \<and> (t1 \<le> t2 \<and> t2 \<le> t3 \<and> t3 - t1 < 1000 \<and> 1000 \<le> t4 - t1 \<longrightarrow>
        admissions (newRateLimiter 2 1000) [t1, t2, t3, t4] = [True, True, False, True])"
  using tryRequest_requests [of rl now] tryRequest_admitted [of rl now] tryRequest_fields [of rl now]
    admissions_three [of t1 t2 t3] admissions_four [of t1 t2 t3 t4]
  by blast

theorem C2_tryRequest_witness:
  "requests (snd (tryRequest \<lparr>requests = [0, 400], limit = 2, windowMs = 1000\<rparr> 1000)) = [400, 1000]
   \<and> fst (tryRequest \<lparr>requests = [0, 400], limit = 2, windowMs = 1000\<rparr> 1000)
   \<and> admissions (newRateLimiter 2 1000) [0, 500, 999] = [True, True, False]
   \<and> admissions (newRateLimiter 2 1000) [0, 500, 999, 1000] = [True, True, False, True]"
  using C2_tryRequest [of "\<lparr>requests = [0, 400], limit = 2, windowMs = 1000\<rparr>" 1000 0 500 999 1000]
  by simp

lemma run_snoc: "run rl (calls @ [c]) = step (run rl calls) c"
  by (simp add: run_def)

lemma run_getRetryAfter: "run rl (map (Pair CallGetRetryAfter) ts) = rl"
  by (induction ts) (simp_all add: run_def)

lemma run_append: "run rl (xs @ ys) = run (run rl xs) ys"
  by (simp add: run_def)

lemma run_fields:
  "limit (run rl calls) = limit rl \<and> windowMs (run rl calls) = windowMs rl"
proof (induction calls rule: rev_induct)
  case Nil
  show ?case by (simp add: run_def)
next
  case (snoc c calls)
  obtain k now where c: "c = (k, now)" by (cases c)
  show ?case using snoc tryRequest_fields [of "run rl calls" now]
    by (cases k) (simp_all add: run_snoc c)
qed

lemma tryRequest_young:
  assumes "0 < windowMs rl"
  shows "list_all (\<lambda>time. now - time < windowMs rl) (requests (snd (tryRequest rl now)))"
  using assms by (simp add: tryRequest_def Let_def list_all_iff)

lemma tryRequest_length:
  "fst (tryRequest rl now) \<Longrightarrow> int (length (requests (snd (tryRequest rl now)))) \<le> limit rl"
  by (simp add: tryRequest_def Let_def split: if_splits)

lemma tryRequest_length_le:
  assumes "int (length (requests rl)) \<le> limit rl"
  shows "int (length (requests (snd (tryRequest rl now)))) \<le> limit rl"
proof -
  let ?kept = "filter (\<lambda>time. now - time < windowMs rl) (requests rl)"
  have "length ?kept \<le> length (requests rl)"
    by (rule length_filter_le)
  with assms have k: "int (length ?kept) \<le> limit rl"
    by linarith
  show ?thesis
  proof (cases "int (length ?kept) < limit rl")
    case True
    then show ?thesis by (simp add: tryRequest_def Let_def)
  next
    case False
    with k show ?thesis by (simp add: tryRequest_def Let_def)
  qed
qed

lemma run_length:
  assumes "0 \<le> lim"
  shows "int (length (requests (run (newRateLimiter lim win) calls))) \<le> lim"
proof (induction calls rule: rev_induct)
  case Nil
  show ?case using assms by (simp add: run_def newRateLimiter_def)
next
  case (snoc c calls)
  obtain k now where c: "c = (k, now)" by (cases c)
  have lim: "limit (run (newRateLimiter lim win) calls) = lim"
    using run_fields [of "newRateLimiter lim win" calls] by (simp add: newRateLimiter_def)
  show ?case
  proof (cases k)
    case CallTryRequest
    then show ?thesis
      using snoc lim tryRequest_length_le [of "run (newRateLimiter lim win) calls" now]
      by (simp add: run_snoc c)
  next
    case CallGetRetryAfter
    then show ?thesis using snoc by (simp add: run_snoc c)
  qed
qed

text \<open>
  C3 (as stated, refuted): timestamps are pruned by \<^verbatim>\<open>tryRequest\<close> only. After an
  admission at time 0, a \<^verbatim>\<open>getRetryAfter\<close> call at time 5000 finds the entry 0 still
  recorded, 5000 ms old in a 1000 ms window (and answers 0).
\<close>

theorem C3_stale_counterexample:
  "\<not> spec_no_stale (run (newRateLimiter 1 1000) [(CallTryRequest, 0), (CallGetRetryAfter, 5000)]) 5000
   \<and> requests (run (newRateLimiter 1 1000) [(CallTryRequest, 0), (CallGetRetryAfter, 5000)]) = [0]
   \<and> getRetryAfter (run (newRateLimiter 1 1000) [(CallTryRequest, 0), (CallGetRetryAfter, 5000)]) 5000 = 0"
  by (simp add: run_def newRateLimiter_def tryRequest_def Let_def spec_no_stale_def getRetryAfter_def)

text \<open>
  C3 (amended): for a limiter built with a positive window and driven by any interleaving
  of \<^verbatim>\<open>tryRequest\<close> and \<^verbatim>\<open>getRetryAfter\<close> calls, right after a \<^verbatim>\<open>tryRequest\<close> at time
  \<open>now\<close>, and until the next \<^verbatim>\<open>tryRequest\<close>, every recorded timestamp is younger than
  \<open>windowMs\<close> as of \<open>now\<close>; if that call was admitted the number of recorded timestamps is
  at most the limit; and with a limit that is not negative it is at most the limit in
  every reachable state. Entries that age past the window after \<open>now\<close> stay recorded until
  the next \<^verbatim>\<open>tryRequest\<close>.
\<close>

theorem C3_window_invariant:
  assumes "0 < win"
  shows "list_all (\<lambda>time. now - time < win)
           (requests (run (newRateLimiter lim win)
              (calls @ [(CallTryRequest, now)] @ map (Pair CallGetRetryAfter) ts)))
         \<and> (fst (tryRequest (run (newRateLimiter lim win) calls) now) \<longrightarrow>
              int (length (requests (run (newRateLimiter lim win)
                 (calls @ [(CallTryRequest, now)] @ map (Pair CallGetRetryAfter) ts)))) \<le> lim)
         \<and> (0 \<le> lim \<longrightarrow> int (length (requests (run (newRateLimiter lim win) calls))) \<le> lim)"
proof -
  let ?rl = "run (newRateLimiter lim win) calls"
  have f: "limit ?rl = lim \<and> windowMs ?rl = win"
    using run_fields [of "newRateLimiter lim win" calls] by (simp add: newRateLimiter_def)
  have r: "run (newRateLimiter lim win) (calls @ [(CallTryRequest, now)] @ map (Pair CallGetRetryAfter) ts)
             = snd (tryRequest ?rl now)"
  proof -
    have one: "run ?rl [(CallTryRequest, now)] = snd (tryRequest ?rl now)"
      by (simp add: run_def)
    show ?thesis
      by (simp only: run_append run_getRetryAfter one)
  qed
  have a: "list_all (\<lambda>time. now - time < win) (requests (snd (tryRequest ?rl now)))"
    using tryRequest_young [of ?rl now] assms f by simp
  have b: "fst (tryRequest ?rl now) \<longrightarrow> int (length (requests (snd (tryRequest ?rl now)))) \<le> lim"
    using tryRequest_length [of ?rl now] f by simp
  have c: "0 \<le> lim \<longrightarrow> int (length (requests ?rl)) \<le> lim"
    using run_length [of lim win calls] by simp
  show ?thesis
    unfolding r using a b c by blast
qed

theorem C3_window_invariant_witness:
  "list_all (\<lambda>time. 1500 - time < 1000)
     (requests (run (newRateLimiter 2 1000)
        [(CallTryRequest, 0), (CallTryRequest, 600), (CallTryRequest, 1500), (CallGetRetryAfter, 9000)]))
   \<and> int (length (requests (run (newRateLimiter 2 1000)
        [(CallTryRequest, 0), (CallTryRequest, 600), (CallTryRequest, 1500), (CallGetRetryAfter, 9000)]))) \<le> 2
   \<and> fst (tryRequest (run (newRateLimiter 2 1000) [(CallTryRequest, 0), (CallTryRequest, 600)]) 1500)"
proof -
  have w: "(0::int) < 1000" by simp
  have adm: "fst (tryRequest (run (newRateLimiter 2 1000) [(CallTryRequest, 0), (CallTryRequest, 600)]) 1500)"
    by (simp add: run_def newRateLimiter_def tryRequest_def Let_def)
  show ?thesis
    using C3_window_invariant [OF w, of 1500 2 "[(CallTryRequest, 0), (CallTryRequest, 600)]" "[9000]"] adm
    by simp
qed

subsection \<open>Response cache\<close>

lemma getFromCache_put:
  assumes "0 \<le> t"
  shows "getFromCache k (setCache k v t s) = (v, setCache k v t s)"
  using assms by (simp add: getFromCache_def setCache_def AList.update_conv')

lemma getFromCache_expired:
  assumes "map_of (cache s) k = Some e" and "timestamp e + ttl e < clock s"
  shows "getFromCache k s = (JNull, s\<lparr>cache := AList.delete k (cache s)\<rparr>)"
  using assms by (simp add: getFromCache_def)

lemma stats_after_delete:
  "k \<notin> set (stats_keys (fst (getCacheStats (s\<lparr>cache := AList.delete k (cache s)\<rparr>))))"
  by (simp add: getCacheStats_def AList.delete_keys)

lemma getFromCache_put_later:
  assumes "clock s + t < now"
  shows "getFromCache k ((setCache k v t s)\<lparr>clock := now\<rparr>)
           = (JNull, (setCache k v t s)\<lparr>clock := now, cache := AList.delete k (cache s)\<rparr>)"
  using assms
  by (simp add: getFromCache_def setCache_def AList.update_conv' AList.delete_update_same)

text \<open>
  C4: for every key, value and positive ttl, a put followed at once by a get of the same
  key returns the stored value and leaves the cache as the put left it; a get at any later
  time \<open>now > storedAt + ttl\<close> returns \<^verbatim>\<open>null\<close> and deletes the entry, so that the key is
  not among the keys \<^verbatim>\<open>getCacheStats\<close> then lists; the same holds for any entry found
  expired; and \<^verbatim>\<open>getCacheStats\<close> returns the state it was given.
\<close>

theorem C4_cache_roundtrip:
  assumes "0 < t"
  shows "getFromCache k (setCache k v t s) = (v, setCache k v t s)
       \<and> (clock s + t < now \<longrightarrow>
            fst (getFromCache k ((setCache k v t s)\<lparr>clock := now\<rparr>)) = JNull
          \<and> map_of (cache (snd (getFromCache k ((setCache k v t s)\<lparr>clock := now\<rparr>)))) k = None
          \<and> k \<notin> set (stats_keys (fst (getCacheStats (snd (getFromCache k ((setCache k v t s)\<lparr>clock := now\<rparr>)))))))
       \<and> (map_of (cache s') k = Some e \<and> timestamp e + ttl e < clock s' \<longrightarrow>
            fst (getFromCache k s') = JNull
          \<and> cache (snd (getFromCache k s')) = AList.delete k (cache s')
          \<and> k \<notin> set (stats_keys (fst (getCacheStats (snd (getFromCache k s'))))))
       \<and> snd (getCacheStats s') = s'"
proof -
  have a: "getFromCache k (setCache k v t s) = (v, setCache k v t s)"
    using assms getFromCache_put [of t k v s] by simp
  have b: "clock s + t < now \<longrightarrow>
            fst (getFromCache k ((setCache k v t s)\<lparr>clock := now\<rparr>)) = JNull
          \<and> map_of (cache (snd (getFromCache k ((setCache k v t s)\<lparr>clock := now\<rparr>)))) k = None
          \<and> k \<notin> set (stats_keys (fst (getCacheStats (snd (getFromCache k ((setCache k v t s)\<lparr>clock := now\<rparr>))))))"
    by (simp add: getFromCache_put_later getCacheStats_def AList.delete_keys AList.delete_conv')
  have c: "map_of (cache s') k = Some e \<and> timestamp e + ttl e < clock s' \<longrightarrow>
            fst (getFromCache k s') = JNull
          \<and> cache (snd (getFromCache k s')) = AList.delete k (cache s')
          \<and> k \<notin> set (stats_keys (fst (getCacheStats (snd (getFromCache k s')))))"
    by (simp add: getFromCache_expired getCacheStats_def AList.delete_keys)
  have d: "snd (getCacheStats s') = s'"
    by (simp add: getCacheStats_def)
  from a b c d show ?thesis by blast
qed

theorem C4_cache_roundtrip_witness:
  "getFromCache ''league:na1:abc'' (setCache ''league:na1:abc'' (JArr []) 60000 (newRiotApiService sampleConfig 5))
     = (JArr [], setCache ''league:na1:abc'' (JArr []) 60000 (newRiotApiService sampleConfig 5))
   \<and> fst (getFromCache ''league:na1:abc''
        ((setCache ''league:na1:abc'' (JArr []) 60000 (newRiotApiService sampleConfig 5))\<lparr>clock := 60006\<rparr>)) = JNull
   \<and> stats_keys (fst (getCacheStats (snd (getFromCache ''league:na1:abc''
        ((setCache ''league:na1:abc'' (JArr []) 60000 (newRiotApiService sampleConfig 5))\<lparr>clock := 60006\<rparr>))))) = []
   \<and> fst (getFromCache ''league:na1:abc''
        ((newRiotApiService sampleConfig 100)
           \<lparr>cache := [(''match:1'', \<lparr>data = JObj [], timestamp = 90, ttl = 50\<rparr>),
                      (''league:na1:abc'', \<lparr>data = JArr [], timestamp = 0, ttl = 10\<rparr>)]\<rparr>)) = JNull
   \<and> stats_keys (fst (getCacheStats (snd (getFromCache ''league:na1:abc''
        ((newRiotApiService sampleConfig 100)
           \<lparr>cache := [(''match:1'', \<lparr>data = JObj [], timestamp = 90, ttl = 50\<rparr>),
                      (''league:na1:abc'', \<lparr>data = JArr [], timestamp = 0, ttl = 10\<rparr>)]\<rparr>))))) = [''match:1'']"
proof -
  let ?s = "newRiotApiService sampleConfig 5"
  let ?e = "\<lparr>data = JArr [], timestamp = 0, ttl = 10\<rparr>"
  let ?s' = "(newRiotApiService sampleConfig 100)
           \<lparr>cache := [(''match:1'', \<lparr>data = JObj [], timestamp = 90, ttl = 50\<rparr>),
                      (''league:na1:abc'', ?e)]\<rparr>"
  have t: "(0::int) < 60000" by simp
  have later: "clock ?s + 60000 < 60006"
    by (simp add: newRiotApiService_def)
  have old: "map_of (cache ?s') ''league:na1:abc'' = Some ?e \<and> timestamp ?e + ttl ?e < clock ?s'"
    by (simp add: newRiotApiService_def)
  show ?thesis
    using C4_cache_roundtrip [OF t, of "''league:na1:abc''" "JArr []" ?s 60006 ?s' ?e] later old
    by (simp add: getFromCache_def setCache_def getCacheStats_def newRiotApiService_def)
qed

subsection \<open>The gateway call: what it changes\<close>

lemma sleep_frame:
  "cache (sleep ms s) = cache s \<and> globalLimiter (sleep ms s) = globalLimiter s
   \<and> appLimiter (sleep ms s) = appLimiter s \<and> trace (sleep ms s) = trace s @ [Sleep ms]"
  by (simp add: sleep_def)

lemma getRetryAfter_nonneg: "0 \<le> getRetryAfter rl now"
  by (simp add: getRetryAfter_def split: list.splits)

lemma applyRateLimit_eq:
  "applyRateLimit s =
     (let g = tryRequest (globalLimiter s) (clock s);
          w1 = getRetryAfter (snd g) (clock s);
          c1 = clock s + (if fst g then 0 else w1);
          a = tryRequest (appLimiter s) c1;
          w2 = getRetryAfter (snd a) c1
      in s\<lparr>clock := c1 + (if fst a then 0 else w2),
           globalLimiter := snd g,
           appLimiter := snd a,
           trace := trace s @ [TryRequest ''global'' (fst g)] @ (if fst g then [] else [Sleep (Num w1)])
                      @ [TryRequest ''app'' (fst a)] @ (if fst a then [] else [Sleep (Num w2)])\<rparr>)"
  using getRetryAfter_nonneg
  by (simp add: applyRateLimit_def sleep_def Let_def split: prod.splits)

lemma applyRateLimit_cache: "cache (applyRateLimit s) = cache s"
  by (simp add: applyRateLimit_eq Let_def)

lemma applyRateLimit_transportCalls:
  "transportCalls (trace (applyRateLimit s)) = transportCalls (trace s)"
  by (simp add: applyRateLimit_eq Let_def transportCalls_def)

lemma handleApiError_state:
  "snd (handleApiError response s) = (if status response = 429 then sleep (waitTime response) s else s)"
  by (simp add: handleApiError_def)

lemma handleApiError_cache: "cache (snd (handleApiError response s)) = cache s"
  by (simp add: handleApiError_state sleep_def)

lemma handleApiError_transportCalls:
  "transportCalls (trace (snd (handleApiError response s))) = transportCalls (trace s)"
  by (simp add: handleApiError_state sleep_def transportCalls_def)

lemma fetchRemote_no_store:
  assumes "\<not> (truthy_str cacheKey \<and> truthy_num ttl_arg \<and> enabled cfg)"
  shows "cache (snd (fetchRemote http cfg url cacheKey ttl_arg s)) = cache s"
proof -
  show ?thesis
    using assms handleApiError_cache
    by (auto simp: fetchRemote_def Let_def case_prod_beta applyRateLimit_cache truthy_str_def truthy_num_def
        split: sum.splits option.splits)
qed

lemma getFromCache_cache:
  "cache (snd (getFromCache k s)) = (if expired k s then AList.delete k (cache s) else cache s)"
  by (simp add: getFromCache_def expired_def split: option.splits)

lemma getFromCache_rest:
  "trace (snd (getFromCache k s)) = trace s \<and> clock (snd (getFromCache k s)) = clock s
   \<and> globalLimiter (snd (getFromCache k s)) = globalLimiter s
   \<and> appLimiter (snd (getFromCache k s)) = appLimiter s"
  by (simp add: getFromCache_def split: option.splits)

lemma getFromCache_live:
  assumes "map_of (cache s) k = Some e" and "\<not> timestamp e + ttl e < clock s"
  shows "getFromCache k s = (data e, s)"
  using assms by (simp add: getFromCache_def)

lemma makeApiCall_no_store:
  assumes "cacheKey = None \<or> cacheKey = Some [] \<or> ttl_arg = None \<or> ttl_arg = Some 0 \<or> \<not> enabled cfg"
  shows "cache (snd (makeApiCall http cfg url cacheKey ttl_arg s)) =
           (case cacheKey of
              None \<Rightarrow> cache s
            | Some k \<Rightarrow> if k \<noteq> [] \<and> enabled cfg \<and> expired k s then AList.delete k (cache s) else cache s)"
proof -
  have falsy: "\<not> (truthy_str cacheKey \<and> truthy_num ttl_arg \<and> enabled cfg)"
    using assms by (auto simp: truthy_str_def truthy_num_def)
  show ?thesis
  proof (cases cacheKey)
    case None
    then show ?thesis
      using fetchRemote_no_store [OF falsy, of http url s] by (simp add: makeApiCall_def)
  next
    case (Some k)
    show ?thesis
    proof (cases "k \<noteq> [] \<and> enabled cfg")
      case False
      then show ?thesis
        using Some fetchRemote_no_store [OF falsy, of http url s] by (auto simp: makeApiCall_def)
    next
      case True
      obtain cached s0 where g: "getFromCache k s = (cached, s0)"
        by (cases "getFromCache k s")
      have c0: "cache s0 = (if expired k s then AList.delete k (cache s) else cache s)"
        using getFromCache_cache [of k s] g by simp
      show ?thesis
      proof (cases "truthy cached")
        case hit: True
        have "\<not> expired k s"
          using g hit by (auto simp: getFromCache_def expired_def split: option.splits if_splits)
        then show ?thesis
          using Some True g hit c0 by (simp add: makeApiCall_def)
      next
        case miss: False
        then show ?thesis
          using Some True g c0 fetchRemote_no_store [OF falsy, of http url s0]
          by (simp add: makeApiCall_def)
      qed
    qed
  qed
qed

text \<open>
  C5 (as stated, refuted): a call with a cache key and no ttl stores nothing, but its
  initial lookup deletes an entry under that key that has expired. Here the entry stored
  at time 0 with ttl 10 is gone after a successful call at time 100.
\<close>

theorem C5_eviction_counterexample:
  "fst (makeApiCall (respond 200 ''OK'' (JObj [])) sampleConfig ''https://na1.api.riotgames.com/x''
          (Some ''summoner:puuid:P'') None
          ((newRiotApiService sampleConfig 100)
             \<lparr>cache := [(''summoner:puuid:P'', \<lparr>data = JObj [], timestamp = 0, ttl = 10\<rparr>)]\<rparr>))
     = Inr (JObj [])
   \<and> cache (snd (makeApiCall (respond 200 ''OK'' (JObj [])) sampleConfig ''https://na1.api.riotgames.com/x''
          (Some ''summoner:puuid:P'') None
          ((newRiotApiService sampleConfig 100)
             \<lparr>cache := [(''summoner:puuid:P'', \<lparr>data = JObj [], timestamp = 0, ttl = 10\<rparr>)]\<rparr>)))
     = []"
  by code_simp

text \<open>
  C5 (amended): for every gateway call, successful or not, in which the cache key is
  absent or empty, the ttl is absent or zero, or caching is disabled, nothing is stored:
  the cache is left as it was, except that when a non-empty key is given and caching is
  enabled an entry under that key that has already expired is deleted by the initial
  lookup. Every entry of the cache afterwards was an entry before.
\<close>

theorem C5_nothing_stored:
  assumes "cacheKey = None \<or> cacheKey = Some [] \<or> ttl_arg = None \<or> ttl_arg = Some 0 \<or> \<not> enabled cfg"
  shows "cache (snd (makeApiCall http cfg url cacheKey ttl_arg s)) =
           (case cacheKey of
              None \<Rightarrow> cache s
            | Some k \<Rightarrow> if k \<noteq> [] \<and> enabled cfg \<and> expired k s then AList.delete k (cache s) else cache s)
       \<and> set (cache (snd (makeApiCall http cfg url cacheKey ttl_arg s))) \<subseteq> set (cache s)"
proof -
  have eq: "cache (snd (makeApiCall http cfg url cacheKey ttl_arg s)) =
           (case cacheKey of
              None \<Rightarrow> cache s
            | Some k \<Rightarrow> if k \<noteq> [] \<and> enabled cfg \<and> expired k s then AList.delete k (cache s) else cache s)"
    using assms by (rule makeApiCall_no_store)
  have sub: "\<And>k. set (AList.delete k (cache s)) \<subseteq> set (cache s)"
    by (auto simp: AList.delete_eq)
  show ?thesis
    using eq sub by (auto split: option.splits if_splits)
qed

theorem C5_nothing_stored_witness:
  "cache (snd (makeApiCall (respond 200 ''OK'' (JObj [])) sampleConfig ''https://na1.api.riotgames.com/x''
          (Some ''summoner:puuid:P'') None
          ((newRiotApiService sampleConfig 5)
             \<lparr>cache := [(''match:1'', \<lparr>data = JObj [], timestamp = 0, ttl = 10\<rparr>)]\<rparr>)))
     = [(''match:1'', \<lparr>data = JObj [], timestamp = 0, ttl = 10\<rparr>)]"
  using C5_nothing_stored [of "Some ''summoner:puuid:P''" None sampleConfig
      "respond 200 ''OK'' (JObj [])" "''https://na1.api.riotgames.com/x''"
      "(newRiotApiService sampleConfig 5)\<lparr>cache := [(''match:1'', \<lparr>data = JObj [], timestamp = 0, ttl = 10\<rparr>)]\<rparr>"]
  by (simp add: expired_def newRiotApiService_def)

lemma fetchRemote_stored:
  assumes "fetchRemote http cfg url (Some k) (Some t) s = (Inr v, s1)"
    and "k \<noteq> []" and "t \<noteq> 0" and "enabled cfg"
  shows "cache s1 = AList.update k \<lparr>data = v, timestamp = clock s1, ttl = t\<rparr> (cache s)
       \<and> transportCalls (trace s1) = transportCalls (trace s) + 1"
  using assms
  by (auto simp: fetchRemote_def Let_def case_prod_beta setCache_def applyRateLimit_cache
      transportCalls_def applyRateLimit_transportCalls [unfolded transportCalls_def]
      split: sum.splits if_splits)

lemma makeApiCall_hit:
  assumes "k \<noteq> []" and "enabled cfg" and "map_of (cache s) k = Some e"
    and "\<not> timestamp e + ttl e < clock s" and "truthy (data e)"
  shows "makeApiCall http cfg url (Some k) ttl_arg s = (Inr (data e), s)"
  using assms by (simp add: makeApiCall_def getFromCache_def)

lemma makeApiCall_miss:
  assumes "k \<noteq> []" and "enabled cfg" and "\<not> truthy (fst (getFromCache k s))"
  shows "makeApiCall http cfg url (Some k) ttl_arg s = fetchRemote http cfg url (Some k) ttl_arg (snd (getFromCache k s))"
  using assms by (simp add: makeApiCall_def case_prod_beta)

lemma makeApiCall_twice:
  assumes "k \<noteq> []" and "enabled cfg" and "t \<noteq> 0"
    and miss: "\<not> truthy (fst (getFromCache k s))"
    and first: "makeApiCall http cfg url (Some k) (Some t) s = (Inr v, s1)"
    and "truthy v" and "now \<le> clock s1 + t"
  shows "transportCalls (trace s1) = transportCalls (trace s) + 1
       \<and> makeApiCall http cfg url (Some k) (Some t) (s1\<lparr>clock := now\<rparr>) = (Inr v, s1\<lparr>clock := now\<rparr>)"
proof -
  let ?s0 = "snd (getFromCache k s)"
  have f: "fetchRemote http cfg url (Some k) (Some t) ?s0 = (Inr v, s1)"
    using makeApiCall_miss [OF assms(1,2) miss, of http url "Some t"] first by simp
  have st: "cache s1 = AList.update k \<lparr>data = v, timestamp = clock s1, ttl = t\<rparr> (cache ?s0)
       \<and> transportCalls (trace s1) = transportCalls (trace ?s0) + 1"
    using fetchRemote_stored [OF f assms(1) assms(3) assms(2)] .
  have tr: "transportCalls (trace ?s0) = transportCalls (trace s)"
    using getFromCache_rest [of k s] by simp
  let ?e = "\<lparr>data = v, timestamp = clock s1, ttl = t\<rparr>"
  have m: "map_of (cache (s1\<lparr>clock := now\<rparr>)) k = Some ?e"
    using st by (simp add: AList.update_conv')
  have live: "\<not> timestamp ?e + ttl ?e < clock (s1\<lparr>clock := now\<rparr>)"
    using assms(7) by simp
  have hit: "makeApiCall http cfg url (Some k) (Some t) (s1\<lparr>clock := now\<rparr>) = (Inr (data ?e), s1\<lparr>clock := now\<rparr>)"
    using makeApiCall_hit [OF assms(1,2) m live] assms(6) by simp
  show ?thesis
    using st tr hit by simp
qed

lemma getLeagueEntries_twice:
  assumes "enabled cfg" and "rankedTtl cfg \<noteq> 0"
    and miss: "\<not> truthy (fst (getFromCache (''league:'' @ reg @ '':'' @ summonerId) s))"
    and first: "getLeagueEntriesBySummonerId http cfg summonerId reg s = (Inr v, s1)"
    and "truthy v" and "now \<le> clock s1 + rankedTtl cfg * 1000"
  shows "transportCalls (trace s1) = transportCalls (trace s) + 1
       \<and> getLeagueEntriesBySummonerId http cfg summonerId reg (s1\<lparr>clock := now\<rparr>) = (Inr v, s1\<lparr>clock := now\<rparr>)"
proof (cases "buildUrl cfg reg (''/lol/league/v4/entries/by-summoner/'' @ summonerId) True")
  case (Inl e)
  then show ?thesis
    using first by (simp add: getLeagueEntriesBySummonerId_def)
next
  case (Inr url)
  let ?k = "''league:'' @ reg @ '':'' @ summonerId"
  have k: "?k \<noteq> []" by simp
  have t: "rankedTtl cfg * 1000 \<noteq> 0" using assms(2) by simp
  have f: "makeApiCall http cfg url (Some ?k) (Some (rankedTtl cfg * 1000)) s = (Inr v, s1)"
    using first Inr by (simp add: getLeagueEntriesBySummonerId_def)
  show ?thesis
    using makeApiCall_twice [OF k assms(1) t miss f assms(5) assms(6)] Inr
    by (simp add: getLeagueEntriesBySummonerId_def)
qed

text \<open>
  C6 (as stated, refuted): the hit test is the truthiness of the cached value. A live
  entry holding the number 0 is treated as a miss: both limiters record the call and the
  transport is invoked.
\<close>

theorem C6_falsy_counterexample:
  "makeApiCall (respond 200 ''OK'' (JNum 7)) sampleConfig ''https://na1.api.riotgames.com/x''
     (Some ''league:na1:abc'') (Some 60000)
     ((newRiotApiService sampleConfig 10)
        \<lparr>cache := [(''league:na1:abc'', \<lparr>data = JNum 0, timestamp = 0, ttl = 60000\<rparr>)]\<rparr>)
   = (Inr (JNum 7),
      \<lparr>clock = 10,
       cache = [(''league:na1:abc'', \<lparr>data = JNum 7, timestamp = 10, ttl = 60000\<rparr>)],
       globalLimiter = \<lparr>requests = [10], limit = 20, windowMs = 1000\<rparr>,
       appLimiter = \<lparr>requests = [10], limit = 100, windowMs = 120000\<rparr>,
       trace = [TryRequest ''global'' True, TryRequest ''app'' True,
                GetWithHeaders ''https://na1.api.riotgames.com/x'' ''RGAPI-test'']\<rparr>)"
  by code_simp

text \<open>
  C6 (amended): for every gateway call with a non-empty cache key, caching enabled and a
  live entry whose value is truthy (every object and array is), the cached value is
  returned and the state is left exactly as it was: no transport call, no sleep, no
  timestamp recorded in either limiter. Consequently, when a call that missed the cache
  succeeds with a truthy value and a non-zero ttl, it invokes the transport exactly once,
  and the same call made again no later than \<open>ttl\<close> after the value was stored returns
  that value without invoking the transport. So it is for ranked entries requested twice
  for the same summoner id and region within \<^verbatim>\<open>rankedTtl\<close> seconds.
\<close>

theorem C6_cache_hit:
  assumes "k \<noteq> []" and "enabled cfg"
  shows "(map_of (cache s) k = Some e \<and> \<not> timestamp e + ttl e < clock s \<and> truthy (data e) \<longrightarrow>
            makeApiCall http cfg url (Some k) ttl_arg s = (Inr (data e), s))
       \<and> (t \<noteq> 0 \<and> \<not> truthy (fst (getFromCache k s))
            \<and> makeApiCall http cfg url (Some k) (Some t) s = (Inr v, s1)
            \<and> truthy v \<and> now \<le> clock s1 + t \<longrightarrow>
            transportCalls (trace s1) = transportCalls (trace s) + 1
          \<and> makeApiCall http cfg url (Some k) (Some t) (s1\<lparr>clock := now\<rparr>) = (Inr v, s1\<lparr>clock := now\<rparr>))
       \<and> (rankedTtl cfg \<noteq> 0
            \<and> \<not> truthy (fst (getFromCache (''league:'' @ reg @ '':'' @ summonerId) s))
            \<and> getLeagueEntriesBySummonerId http cfg summonerId reg s = (Inr v, s1)
            \<and> truthy v \<and> now \<le> clock s1 + rankedTtl cfg * 1000 \<longrightarrow>
            transportCalls (trace s1) = transportCalls (trace s) + 1
          \<and> getLeagueEntriesBySummonerId http cfg summonerId reg (s1\<lparr>clock := now\<rparr>)
              = (Inr v, s1\<lparr>clock := now\<rparr>))"
  using makeApiCall_hit [OF assms, of s e http url ttl_arg]
    makeApiCall_twice [OF assms, of t s http url v s1 now]
    getLeagueEntries_twice [OF assms(2), of reg summonerId s http v s1 now]
  by blast

theorem C6_cache_hit_witness:
  "getLeagueEntriesBySummonerId (respond 200 ''OK'' (JArr [])) sampleConfig ''abc'' ''na1''
     \<lparr>clock = 30000,
      cache = [(''league:na1:abc'', \<lparr>data = JArr [], timestamp = 0, ttl = 60000\<rparr>)],
      globalLimiter = \<lparr>requests = [0], limit = 20, windowMs = 1000\<rparr>,
      appLimiter = \<lparr>requests = [0], limit = 100, windowMs = 120000\<rparr>,
      trace = [TryRequest ''global'' True, TryRequest ''app'' True,
               GetWithHeaders ''https://na1.api.riotgames.com/lol/league/v4/entries/by-summoner/abc''
                 ''RGAPI-test'']\<rparr>
   = (Inr (JArr []),
      \<lparr>clock = 30000,
       cache = [(''league:na1:abc'', \<lparr>data = JArr [], timestamp = 0, ttl = 60000\<rparr>)],
       globalLimiter = \<lparr>requests = [0], limit = 20, windowMs = 1000\<rparr>,
       appLimiter = \<lparr>requests = [0], limit = 100, windowMs = 120000\<rparr>,
       trace = [TryRequest ''global'' True, TryRequest ''app'' True,
                GetWithHeaders ''https://na1.api.riotgames.com/lol/league/v4/entries/by-summoner/abc''
                  ''RGAPI-test'']\<rparr>)
   \<and> transportCalls [TryRequest ''global'' True, TryRequest ''app'' True,
                GetWithHeaders ''https://na1.api.riotgames.com/lol/league/v4/entries/by-summoner/abc''
                  ''RGAPI-test''] = 1
   \<and> makeApiCall (respond 500 ''Internal Server Error'' JNull) sampleConfig
        ''https://na1.api.riotgames.com/lol/league/v4/entries/by-summoner/abc''
        (Some ''league:na1:abc'') (Some 60000)
        \<lparr>clock = 60000,
         cache = [(''league:na1:abc'', \<lparr>data = JArr [], timestamp = 0, ttl = 60000\<rparr>)],
         globalLimiter = \<lparr>requests = [0], limit = 20, windowMs = 1000\<rparr>,
         appLimiter = \<lparr>requests = [0], limit = 100, windowMs = 120000\<rparr>,
         trace = [TryRequest ''global'' True, TryRequest ''app'' True,
               GetWithHeaders ''https://na1.api.riotgames.com/lol/league/v4/entries/by-summoner/abc''
                 ''RGAPI-test'']\<rparr>
     = (Inr (JArr []),
        \<lparr>clock = 60000,
         cache = [(''league:na1:abc'', \<lparr>data = JArr [], timestamp = 0, ttl = 60000\<rparr>)],
         globalLimiter = \<lparr>requests = [0], limit = 20, windowMs = 1000\<rparr>,
         appLimiter = \<lparr>requests = [0], limit = 100, windowMs = 120000\<rparr>,
         trace = [TryRequest ''global'' True, TryRequest ''app'' True,
               GetWithHeaders ''https://na1.api.riotgames.com/lol/league/v4/entries/by-summoner/abc''
                 ''RGAPI-test'']\<rparr>)"
proof -
  let ?k = "''league:na1:abc''"
  let ?http = "respond 200 ''OK'' (JArr [])"
  let ?down = "respond 500 ''Internal Server Error'' JNull"
  let ?url = "''https://na1.api.riotgames.com/lol/league/v4/entries/by-summoner/abc''"
  let ?s = "newRiotApiService sampleConfig 0"
  let ?e = "\<lparr>data = JArr [], timestamp = 0, ttl = 60000\<rparr>"
  let ?s1 = "\<lparr>clock = 0, cache = [(?k, ?e)],
      globalLimiter = \<lparr>requests = [0], limit = 20, windowMs = 1000\<rparr>,
      appLimiter = \<lparr>requests = [0], limit = 100, windowMs = 120000\<rparr>,
      trace = [TryRequest ''global'' True, TryRequest ''app'' True, GetWithHeaders ?url ''RGAPI-test'']\<rparr>"
  have k: "?k \<noteq> []" by simp
  have en: "enabled sampleConfig" by (simp add: sampleConfig_def)
  have ttl: "rankedTtl sampleConfig \<noteq> 0 \<and> rankedTtl sampleConfig * 1000 = 60000"
    by (simp add: sampleConfig_def)
  have miss: "\<not> truthy (fst (getFromCache (''league:'' @ ''na1'' @ '':'' @ ''abc'') ?s))"
    by (simp add: getFromCache_def newRiotApiService_def)
  have first: "getLeagueEntriesBySummonerId ?http sampleConfig ''abc'' ''na1'' ?s = (Inr (JArr []), ?s1)"
    by code_simp
  have tr: "transportCalls (trace ?s) = 0"
    by (simp add: transportCalls_def newRiotApiService_def)
  have twice: "transportCalls (trace ?s1) = 1
      \<and> getLeagueEntriesBySummonerId ?http sampleConfig ''abc'' ''na1'' (?s1\<lparr>clock := 30000\<rparr>)
          = (Inr (JArr []), ?s1\<lparr>clock := 30000\<rparr>)"
    using C6_cache_hit [OF k en, where s = ?s and http = ?http and reg = "''na1''" and summonerId = "''abc''"
        and v = "JArr []" and ?s1.0 = ?s1 and now = 30000]
      ttl miss first tr
    by simp
  have live: "map_of (cache (?s1\<lparr>clock := 60000\<rparr>)) ?k = Some ?e
      \<and> \<not> timestamp ?e + ttl ?e < clock (?s1\<lparr>clock := 60000\<rparr>) \<and> truthy (data ?e)"
    by simp
  have hit: "makeApiCall ?down sampleConfig ?url (Some ?k) (Some 60000) (?s1\<lparr>clock := 60000\<rparr>)
      = (Inr (JArr []), ?s1\<lparr>clock := 60000\<rparr>)"
    using C6_cache_hit [OF k en, where s = "?s1\<lparr>clock := 60000\<rparr>" and e = ?e and http = ?down
        and url = ?url and ttl_arg = "Some 60000"] live
    by simp
  from twice hit show ?thesis by simp
qed

subsection \<open>Rate limiting inside the gateway\<close>






subsection \<open>Error classification\<close>

lemma digits_chars: "set (digits n) \<subseteq> set ''0123456789''"
proof (induction n rule: digits.induct)
  case (1 n)
  have d: "\<And>d. d < 10 \<Longrightarrow> digit d \<in> set ''0123456789''"
  proof -
    fix d :: nat
    assume "d < 10"
    then have "d = 0 \<or> d = 1 \<or> d = 2 \<or> d = 3 \<or> d = 4 \<or> d = 5 \<or> d = 6 \<or> d = 7 \<or> d = 8 \<or> d = 9"
      by arith
    then show "digit d \<in> set ''0123456789''"
      by (auto simp: digit_def)
  qed
  show ?case
  proof (cases "n < 10")
    case True
    then show ?thesis using d [of n] by (simp add: digits.simps [of n])
  next
    case False
    have "n mod 10 < 10" by simp
    then have "digit (n mod 10) \<in> set ''0123456789''" by (rule d)
    then show ?thesis using False 1 by (simp add: digits.simps [of n])
  qed
qed

lemma digits_nonempty: "digits n \<noteq> []"
  by (cases "n < 10") (simp_all add: digits.simps [of n])

lemma digit_value_digit: "d < 10 \<Longrightarrow> digit_value (digit d) = Some d"
proof -
  assume "d < 10"
  then have "d = 0 \<or> d = 1 \<or> d = 2 \<or> d = 3 \<or> d = 4 \<or> d = 5 \<or> d = 6 \<or> d = 7 \<or> d = 8 \<or> d = 9"
    by arith
  then show ?thesis
    by (auto simp: digit_def digit_value_def)
qed

lemma digits_value_snoc: "digits_value radix (z @ [c]) = digits_value radix z * radix + the (digit_value c)"
  by (simp add: digits_value_def)

lemma digits_value_digits: "digits_value 10 (digits n) = n"
proof (induction n rule: digits.induct)
  case (1 n)
  show ?case
  proof (cases "n < 10")
    case True
    then show ?thesis
      by (simp add: digits.simps [of n] digits_value_def digit_value_digit)
  next
    case False
    have "digits_value 10 (digits n) = digits_value 10 (digits (n div 10)) * 10 + the (digit_value (digit (n mod 10)))"
      using False by (simp add: digits.simps [of n] digits_value_snoc)
    also have "\<dots> = (n div 10) * 10 + n mod 10"
      using False 1 by (simp add: digit_value_digit)
    also have "\<dots> = n" by simp
    finally show ?thesis .
  qed
qed

lemma decimal_char:
  assumes "c \<in> set ''0123456789''"
  shows "is_digit 10 c \<and> \<not> isWhiteSpace c \<and> c \<noteq> CHR ''-'' \<and> c \<noteq> CHR ''+'' \<and> c \<noteq> CHR ''x'' \<and> c \<noteq> CHR ''X''"
  using assms by (auto simp: is_digit_def digit_value_def isWhiteSpace_def)

lemma parseInt_digits: "parseInt (digits n) = Num (int n)"
proof -
  let ?ds = "digits n"
  have ne: "?ds \<noteq> []" by (rule digits_nonempty)
  have all: "\<And>c. c \<in> set ?ds \<Longrightarrow> c \<in> set ''0123456789''"
    using digits_chars [of n] by blast
  have hd_in: "hd ?ds \<in> set ?ds" using ne by simp
  have s1: "dropWhile isWhiteSpace ?ds = ?ds"
    using ne decimal_char [OF all [OF hd_in]] by (cases ?ds) simp_all
  have t1: "take 1 ?ds = [hd ?ds]"
    using ne by (cases ?ds) simp_all
  have sign: "take 1 ?ds \<noteq> ''-'' \<and> take 1 ?ds \<noteq> ''+''"
    using decimal_char [OF all [OF hd_in]] unfolding t1 by simp
  have nohex: "take 2 ?ds \<noteq> ''0x'' \<and> take 2 ?ds \<noteq> ''0X''"
  proof -
    have "CHR ''x'' \<notin> set (take 2 ?ds) \<and> CHR ''X'' \<notin> set (take 2 ?ds)"
      using decimal_char [OF all] set_take_subset [of 2 ?ds] by blast
    then show ?thesis by auto
  qed
  have z: "takeWhile (is_digit 10) ?ds = ?ds"
    using decimal_char [OF all] by (simp add: takeWhile_eq_all_conv)
  show ?thesis
    unfolding parseInt_def Let_def s1
    using sign nohex ne
    by (simp add: z digits_value_digits)
qed

lemma waitTime_digits: "waitTime (response\<lparr>retryAfterHeader := Some (digits n)\<rparr>) = Num (int n * 1000)"
  by (simp add: waitTime_def digits_nonempty parseInt_digits)






text \<open>
  A \<^verbatim>\<open>retry-after\<close> header that does not start with a number, such as an HTTP date,
  makes the wait \<^verbatim>\<open>NaN\<close>; a fraction is cut to its integer part.
\<close>

lemma waitTime_not_decimal:
  "waitTime \<lparr>status = 429, statusText = [], retryAfterHeader = Some ''Wed, 21 Oct 2015 07:28:00 GMT'',
             body = Inr JNull\<rparr> = NaN
   \<and> waitTime \<lparr>status = 429, statusText = [], retryAfterHeader = Some ''2.5'', body = Inr JNull\<rparr> = Num 2000"
  by code_simp

subsection \<open>Handles with several separators\<close>

lemma includes_str_char: "includes_str s [c] \<longleftrightarrow> c \<in> set s"
  by (induction s) auto











subsection \<open>Region resolution\<close>

lemma REGIONS_keys:
  "map fst REGIONS =
     [''na1'', ''euw1'', ''eune1'', ''kr'', ''jp1'', ''br1'', ''la1'', ''la2'', ''oc1'', ''tr1'', ''ru'',
      ''ph2'', ''sg2'', ''th2'', ''tw2'', ''vn2'']"
  by (simp add: REGIONS_def mkRegion_def)

lemma REGIONS_entry:
  assumes "map_of REGIONS k = Some rc"
  shows "platform rc = k \<and> region rc = k
       \<and> continent rc = (if k \<in> set [''na1'', ''br1'', ''la1'', ''la2''] then ''americas''
                         else if k \<in> set [''euw1'', ''eune1'', ''tr1'', ''ru''] then ''europe''
                         else if k \<in> set [''kr'', ''jp1''] then ''asia'' else ''sea'')"
  using assms by (auto simp: REGIONS_def mkRegion_def split: if_splits)

lemma getRegionConfig_listed:
  assumes "isValidRegion reg"
  shows "\<exists>rc. getRegionConfig reg = Inr (Own rc) \<and> platform rc = toLowerCase reg"
proof -
  have "toLowerCase reg \<in> fst ` set REGIONS"
    using assms by (simp add: isValidRegion_def)
  then obtain rc where rc: "map_of REGIONS (toLowerCase reg) = Some rc"
    by (cases "map_of REGIONS (toLowerCase reg)") (auto simp: map_of_eq_None_iff)
  then show ?thesis
    using REGIONS_entry [OF rc] by (simp add: getRegionConfig_def REGIONS_get_def)
qed

lemma getRegionConfig_invalid:
  assumes "\<not> isValidRegion reg" and "toLowerCase reg \<notin> set Object_prototype"
  shows "getRegionConfig reg =
           Inl (Error (''Invalid region: '' @ reg @ ''. Supported regions: '' @ join '', '' (map fst REGIONS)))"
proof -
  have "map_of REGIONS (toLowerCase reg) = None"
    using assms(1) by (simp add: isValidRegion_def map_of_eq_None_iff)
  then show ?thesis
    using assms(2) by (simp add: getRegionConfig_def REGIONS_get_def)
qed

lemma invalid_region_no_call:
  assumes "\<not> isValidRegion reg" and "toLowerCase reg \<notin> set Object_prototype"
  shows "snd (getSummonerByPuuid http cfg puuid reg s) = s
       \<and> snd (getAccountByRiotId http cfg gameName tagLine reg s) = s
       \<and> snd (getLeagueEntriesBySummonerId http cfg summonerId reg s) = s
       \<and> snd (getSummonerByRiotId http cfg gameName tagLine reg s) = s"
  using getRegionConfig_invalid [OF assms]
  by (simp add: getSummonerByPuuid_def getAccountByRiotId_def getLeagueEntriesBySummonerId_def
      getSummonerByRiotId_def buildUrl_def)

text \<open>
  C9 (the code departs from the claim): \<^verbatim>\<open>getRegionConfig\<close> reads \<^verbatim>\<open>REGIONS[code]\<close> and
  tests the result for truthiness. For the code \<open>Constructor\<close>, which is not in the table
  and which \<^verbatim>\<open>isValidRegion\<close> rejects, the lookup finds \<^verbatim>\<open>Object.prototype.constructor\<close>,
  no error is raised, and a platform-routed lookup goes out to the host \<open>undefined\<close>.
\<close>

theorem C9_inherited_property:
  "isValidRegion ''Constructor'' = False
   \<and> getRegionConfig ''Constructor'' = Inr (Inherited ''constructor'')
   \<and> buildUrl sampleConfig ''Constructor'' ''/lol/summoner/v4/summoners/by-puuid/P'' True
       = Inr ''https://undefined.api.riotgames.com/lol/summoner/v4/summoners/by-puuid/P''
   \<and> trace (snd (getSummonerByPuuid (respond 404 ''Not Found'' JNull) sampleConfig ''P'' ''Constructor''
                   (newRiotApiService sampleConfig 0)))
       = [TryRequest ''global'' True, TryRequest ''app'' True,
          GetWithHeaders ''https://undefined.api.riotgames.com/lol/summoner/v4/summoners/by-puuid/P''
            ''RGAPI-test'']"
  by code_simp

subsection \<open>Bare handles\<close>

lemma tagLines_americas:
  assumes "toLowerCase reg \<in> set [''na1'', ''br1'', ''la1'', ''la2'']"
  shows "getDefaultTagLinesForRegion reg = Inr [''NA1'', ''BR1'', ''LAN'', ''LAS'', ''0000'']"
  using assms
  by (auto simp: getDefaultTagLinesForRegion_def getRegionConfig_def REGIONS_get_def REGIONS_def
      mkRegion_def tagLineMap_def String_str_def)

lemma getSummonerByName_bare:
  assumes "CHR ''#'' \<notin> set h"
  shows "getSummonerByName http cfg h reg s =
           (case getDefaultTagLinesForRegion reg of
              Inl e \<Rightarrow> (Inl e, s)
            | Inr tagLines \<Rightarrow> tryTagLines http cfg h reg tagLines s)"
  using assms by (simp add: getSummonerByName_def includes_str_char)

lemma tryTagLines_found:
  assumes "getSummonerByRiotId http cfg h tagLine reg s = (Inr summoner, s1)"
  shows "tryTagLines http cfg h reg (tagLine # rest) s = (Inr summoner, s1)"
  using assms by simp

lemma tryTagLines_abort:
  assumes "getSummonerByRiotId http cfg h tagLine reg s = (Inl e, s1)"
    and "\<not> includes_str (message e) ''Not Found''"
  shows "tryTagLines http cfg h reg (tagLine # rest) s = (Inl e, s1)"
  using assms by simp

lemma tryTagLines_advance:
  assumes "getSummonerByRiotId http cfg h tagLine reg s = (Inl e, s1)"
    and "includes_str (message e) ''Not Found''"
  shows "tryTagLines http cfg h reg (tagLine # rest) s = tryTagLines http cfg h reg rest s1"
  using assms by simp

lemma includes_str_nil: "includes_str s []"
  by (cases s) simp_all

lemma includes_str_prefix: "includes_str (x @ q) x"
  by (cases x) (simp_all add: includes_str_nil)

lemma includes_str_append: "includes_str s x \<Longrightarrow> includes_str (p @ s) x"
  by (induction p) simp_all

lemma tryTagLines_exhausted:
  "tryTagLines http cfg h reg [] s = (Inl (Error (notFoundMessage h)), s)
   \<and> includes_str (notFoundMessage h) h
   \<and> includes_str (notFoundMessage h) ''gameName#tagLine''"
proof -
  have a: "includes_str (notFoundMessage h) h"
    unfolding notFoundMessage_def
    using includes_str_append [OF includes_str_prefix, of "''Summoner '' @ [CHR 0x22]" h]
    by simp
  have b: "includes_str (notFoundMessage h) ''gameName#tagLine''"
    unfolding notFoundMessage_def
    using includes_str_append [OF includes_str_prefix,
        of "''Summoner '' @ [CHR 0x22] @ h @ [CHR 0x22] @ '' not found. Please use full Riot ID format: ''"
        "''gameName#tagLine''"]
    by simp
  show ?thesis using a b by simp
qed

lemma classified_not_found:
  "includes_str (message (fst (handleApiError response s))) ''Not Found'' \<longleftrightarrow>
     (status response = 404
      \<or> (spec_classify (status response) \<in> {BadRequest, Unknown}
          \<and> includes_str (message (fst (handleApiError response s))) ''Not Found''))"
  by (auto simp: handleApiError_def spec_classify_def split: if_splits)

text \<open>
  C8 (the code departs from the claim): the loop recognises a 404 by the text
  \<open>Not Found\<close> anywhere in the error message, and the message of a 400 (or of an
  unlisted status) quotes the response body. A \<open>Bad Request\<close> whose body says
  \<open>Not Found\<close> is therefore not rethrown: all five candidates of the americas list
  are tried and the lookup ends with the dedicated not-found error.
\<close>

theorem C8_bad_request_swallowed:
  "fst (getSummonerByRiotId
          (respond 400 ''Bad Request'' (JObj [(''status'', JObj [(''message'', JStr ''Not Found''), (''status_code'', JNum 400)])]))
          sampleConfig ''Faker'' ''NA1'' ''na1'' (newRiotApiService sampleConfig 0))
     = Inl (Error ''Bad Request: Not Found'')
   \<and> spec_classify 400 = BadRequest
   \<and> fst (getSummonerByName
          (respond 400 ''Bad Request'' (JObj [(''status'', JObj [(''message'', JStr ''Not Found''), (''status_code'', JNum 400)])]))
          sampleConfig ''Faker'' ''na1'' (newRiotApiService sampleConfig 0))
     = Inl (Error (notFoundMessage ''Faker''))
   \<and> transportCalls (trace (snd (getSummonerByName
          (respond 400 ''Bad Request'' (JObj [(''status'', JObj [(''message'', JStr ''Not Found''), (''status_code'', JNum 400)])]))
          sampleConfig ''Faker'' ''na1'' (newRiotApiService sampleConfig 0)))) = 5"
  by code_simp

end
